theory Spec2Isabelle
  imports Main "HOL-Library.Sublist"
begin

section \<open>CatHerder: the generate, execute and repair loop of catHerder.py\<close>

text \<open>
  The development embeds the functions of \<^verbatim>\<open>catHerder.py\<close> that decide what is sent
  to the language model, what is extracted from its reply, what is executed and what is
  written to \<^verbatim>\<open>./scripts\<close>. Strings are lists of characters. The language model, the
  execution of generated code, the file system that is read at start-up and the line typed
  by the user, and whether the file system accepts a write, are the environment of a run and
  are parameters of the model. Printing to the terminal is left out. Generated code is
  assumed not to tamper with the variables and the output directory of the running program.
\<close>

subsection \<open>Python string primitives\<close>

text \<open>
  \<^verbatim>\<open>s.find(sub, start)\<close>: the lowest index at or after \<^verbatim>\<open>start\<close> where \<^verbatim>\<open>sub\<close>
  occurs, and \<^verbatim>\<open>-1\<close> when there is none. \<open>find_at sub cs i\<close> scans the rest \<open>cs\<close> of the
  text, whose first character has index \<open>i\<close>.
\<close>

fun find_at :: "string \<Rightarrow> string \<Rightarrow> nat \<Rightarrow> int" where
  "find_at sub [] i = (if sub = [] then int i else - 1)"
| "find_at sub (c # cs) i =
     (if take (length sub) (c # cs) = sub then int i else find_at sub cs (Suc i))"

definition py_find :: "string \<Rightarrow> string \<Rightarrow> int \<Rightarrow> int" where
  "py_find s sub start =
     (let n = int (length s);
          st = (if start < 0 then max 0 (start + n) else start)
      in if n < st then - 1 else find_at sub (drop (nat st) s) (nat st))"

text \<open>
  \<^verbatim>\<open>s[a:b]\<close>: a negative index counts from the end, and every index is clipped to the
  range of the string.
\<close>

definition py_index :: "nat \<Rightarrow> int \<Rightarrow> nat" where
  "py_index n i = (if i < 0 then nat (max 0 (i + int n)) else min n (nat i))"

definition py_slice :: "string \<Rightarrow> int \<Rightarrow> int \<Rightarrow> string" where
  "py_slice s a b =
     (let i = py_index (length s) a; j = py_index (length s) b
      in take (j - i) (drop i s))"

text \<open>\<^verbatim>\<open>str(i)\<close> on an integer, as an f-string renders it.\<close>

definition digit_char :: "nat \<Rightarrow> char" where
  "digit_char d = char_of (48 + d)"

function str_nat :: "nat \<Rightarrow> string" where
  "str_nat n = (if n < 10 then [digit_char n] else str_nat (n div 10) @ [digit_char (n mod 10)])"
  by pat_completeness auto
termination
  by (relation "measure (\<lambda>n. n)") auto

declare str_nat.simps [simp del]

definition str_int :: "int \<Rightarrow> string" where
  "str_int i = (if i < 0 then CHR ''-'' # str_nat (nat (- i)) else str_nat (nat i))"

text \<open>An optional command-line argument inside an f-string: \<^verbatim>\<open>None\<close> renders as its name.\<close>

definition py_str :: "string option \<Rightarrow> string" where
  "py_str x = (case x of None \<Rightarrow> ''None'' | Some t \<Rightarrow> t)"

text \<open>The truth value of an optional string: \<^verbatim>\<open>None\<close> and the empty string are false.\<close>

definition truthy :: "string option \<Rightarrow> bool" where
  "truthy x = (case x of None \<Rightarrow> False | Some t \<Rightarrow> t \<noteq> [])"

definition arg_value :: "string option \<Rightarrow> string" where
  "arg_value x = (case x of None \<Rightarrow> [] | Some t \<Rightarrow> t)"

subsection \<open>The environment and the state of a run\<close>

text \<open>
  \<open>Escape\<close> is an exception raised by the executed code that is not an \<^verbatim>\<open>Exception\<close>
  (\<^verbatim>\<open>SystemExit\<close>, \<^verbatim>\<open>KeyboardInterrupt\<close>): the \<^verbatim>\<open>except Exception\<close> clause does not
  catch it.
\<close>

datatype exec_result = Success | Failure string | Escape

text \<open>
  The exceptions that end a run. \<open>SaveError m\<close> is an exception with text \<open>m\<close> raised by
  \<^verbatim>\<open>save_code_to_file\<close> outside the \<^verbatim>\<open>try\<close> block.
\<close>

datatype error =
  StartupError | FileNotFoundError | EOFError | TransportError | Escaped | SaveError string

datatype how = Succeeded | Stagnant | Unsupported | Exhausted

datatype exit = Usage | InitialOnly | Finished how | Aborted error

text \<open>
  \<open>llm w n m\<close> is the content of the reply to the \<open>n\<close>-th request (counted from 0) whose user
  message is \<open>m\<close>, or \<open>None\<close> when the request raises. \<open>exec_py w n c\<close> is the outcome of the
  \<open>n\<close>-th call of \<^verbatim>\<open>exec\<close> (counted from 0) on the code \<open>c\<close>. \<open>makedirs_error w\<close> is the text
  of the exception that \<^verbatim>\<open>os.makedirs('./scripts')\<close> raises, or \<open>None\<close> when it creates the
  directory. \<open>open_error w n p\<close> is the text of the exception raised when the \<open>n\<close>-th call of
  \<^verbatim>\<open>save_code_to_file\<close> (counted from 0) opens the path \<open>p\<close> for writing, or \<open>None\<close> when the
  file is opened. \<open>write_error w n p c\<close> is \<open>None\<close> when that call, having opened \<open>p\<close>, writes
  the text \<open>c\<close> and closes the file; otherwise it is the text of the exception raised and
  what the file, truncated when it was opened, is left with.
\<close>

record world =
  files :: "string \<rightharpoonup> string"
  scripts_exists :: bool
  stdin :: "string option"
  makedirs_error :: "string option"
  open_error :: "nat \<Rightarrow> string \<Rightarrow> string option"
  write_error :: "nat \<Rightarrow> string \<Rightarrow> string \<Rightarrow> (string \<times> string) option"
  llm :: "nat \<Rightarrow> string \<Rightarrow> string option"
  exec_py :: "nat \<Rightarrow> string \<Rightarrow> exec_result"

text \<open>
  \<open>saves\<close> counts the calls of \<^verbatim>\<open>save_code_to_file\<close>;
  \<open>writes\<close> logs every file written in full, as (path, contents), in order; \<open>calls\<close> every request
  to the model, as (user message, extracted code); \<open>execs\<close> every execution, as
  (code, outcome).
\<close>

record state =
  fs :: "string \<rightharpoonup> string"
  scripts_dir :: bool
  saves :: nat
  writes :: "(string \<times> string) list"
  calls :: "(string \<times> string) list"
  execs :: "(string \<times> exec_result) list"

subsection \<open>The functions of catHerder.py\<close>

definition extract_code :: "string \<Rightarrow> string \<Rightarrow> string" where
  "extract_code content code_type =
     (let start_tag = ''```'' @ code_type @ ''\<newline>'';
          start_index = py_find content start_tag 0 + int (length start_tag);
          end_index = py_find content ''\<newline>```'' start_index
      in py_slice content start_index end_index)"

text \<open>
  The first statement of \<^verbatim>\<open>call_chatgpt\<close> assigns to its parameter
  \<^verbatim>\<open>special_instructions\<close>, whatever the caller passed.
\<close>

definition call_chatgpt :: "world \<Rightarrow> string \<Rightarrow> string \<Rightarrow> string \<Rightarrow> state \<Rightarrow> error + string \<times> state" where
  "call_chatgpt w prompt code_type special_instructions s =
     (let special_instructions =
            ''Implement a '' @ code_type @ '' script in a single code block to perform this task: '';
          message = special_instructions @ prompt
      in case llm w (length (calls s)) message of
           None \<Rightarrow> Inl TransportError
         | Some content \<Rightarrow>
             (let code = extract_code content code_type
              in Inr (code, s\<lparr>calls := calls s @ [(message, code)]\<rparr>)))"

definition debug_code_with_chatgpt ::
    "world \<Rightarrow> string option \<Rightarrow> string \<Rightarrow> string \<Rightarrow> string \<Rightarrow> state \<Rightarrow> error + string \<times> state" where
  "debug_code_with_chatgpt w original_prompt code error code_type s =
     (let prompt = ''The original prompt was:\<newline>\<newline>'' @ py_str original_prompt
            @ ''\<newline>\<newline>Here is the code:\<newline>\<newline>'' @ code
            @ ''\<newline>\<newline>It produced the following error:\<newline>\<newline>'' @ error
            @ ''\<newline>\<newline>Please help me fix it.''
      in call_chatgpt w prompt code_type
           ''Implement a script in a single code block to perform this task: '' s)"

text \<open>
  \<^verbatim>\<open>save_code_to_file\<close> raises when the directory cannot be created, when the file
  cannot be opened, and when the text cannot be written to the opened file. The result is
  the text of the exception, if any, and the state.
\<close>

definition save_code_to_file ::
    "world \<Rightarrow> string \<Rightarrow> string \<Rightarrow> int \<Rightarrow> string \<Rightarrow> state \<Rightarrow> string option \<times> state" where
  "save_code_to_file w code code_type iteration status s =
     (let n = saves s; s0 = s\<lparr>saves := Suc n\<rparr>
      in if \<not> scripts_dir s \<and> makedirs_error w \<noteq> None then (makedirs_error w, s0)
         else
           (let s1 = s0\<lparr>scripts_dir := True\<rparr>;
                ext = (if code_type = ''python'' then ''py'' else code_type);
                file_path = ''./scripts/script_'' @ status @ ''.'' @ ext
            in case open_error w n file_path of
                 Some m \<Rightarrow> (Some m, s1)
               | None \<Rightarrow>
                   (case write_error w n file_path code of
                      Some (m, left) \<Rightarrow> (Some m, s1\<lparr>fs := (fs s)(file_path \<mapsto> left)\<rparr>)
                    | None \<Rightarrow>
                        (None, s1\<lparr>fs := (fs s)(file_path \<mapsto> code),
                                   writes := writes s @ [(file_path, code)]\<rparr>))))"

record args =
  prompt :: "string option"
  modify :: "string option"
  code_type :: string
  iterations :: int

text \<open>
  The \<^verbatim>\<open>try\<close> block of the loop, for the code type \<^verbatim>\<open>python\<close>: the code is executed
  and, when it succeeds, saved as \<^verbatim>\<open>debugged\<close>. The outcome is \<open>Success\<close> when the block
  reaches its \<^verbatim>\<open>break\<close>, \<open>Failure m\<close> when it raises an \<^verbatim>\<open>Exception\<close> with text \<open>m\<close>
  (from the executed code or from the save), and \<open>Escape\<close> when the executed code raises
  past the handler.
\<close>

definition try_block :: "world \<Rightarrow> args \<Rightarrow> int \<Rightarrow> string \<Rightarrow> state \<Rightarrow> exec_result \<times> state" where
  "try_block w a i code s =
     (let r = exec_py w (length (execs s)) code;
          s1 = s\<lparr>execs := execs s @ [(code, r)]\<rparr>
      in case r of
           Success \<Rightarrow>
             (case save_code_to_file w code (code_type a) i ''debugged'' s1 of
                (None, s2) \<Rightarrow> (Success, s2)
              | (Some m, s2) \<Rightarrow> (Failure m, s2))
         | Failure m \<Rightarrow> (Failure m, s1)
         | Escape \<Rightarrow> (Escape, s1))"

text \<open>
  The body of the \<^verbatim>\<open>for\<close> loop of \<^verbatim>\<open>main\<close>, over the values of
  \<^verbatim>\<open>range(1, args.iterations + 1)\<close> that are left. The result is the variable
  \<^verbatim>\<open>code\<close>, the state, and how the loop was left.
\<close>

fun repair_loop ::
    "world \<Rightarrow> args \<Rightarrow> int list \<Rightarrow> string \<Rightarrow> string option \<Rightarrow> state \<Rightarrow> string \<times> state \<times> exit" where
  "repair_loop w a [] code last_error_message s = (code, s, Finished Exhausted)"
| "repair_loop w a (i # rest) code last_error_message s =
     (if code_type a = ''python'' then
        (case try_block w a i code s of
           (Success, s1) \<Rightarrow> (code, s1, Finished Succeeded)
         | (Escape, s1) \<Rightarrow> (code, s1, Aborted Escaped)
         | (Failure error_message, s1) \<Rightarrow>
             if Some error_message = last_error_message then (code, s1, Finished Stagnant)
             else
               (case debug_code_with_chatgpt w (prompt a) code error_message (code_type a) s1 of
                  Inl e \<Rightarrow> (code, s1, Aborted e)
                | Inr (code', s2) \<Rightarrow>
                    (case save_code_to_file w code' (code_type a) i
                            (''iteration_'' @ str_int i) s2 of
                       (Some m, s3) \<Rightarrow> (code', s3, Aborted (SaveError m))
                     | (None, s3) \<Rightarrow> repair_loop w a rest code' (Some error_message) s3)))
      else (code, s, Finished Unsupported))"

text \<open>Lines 138 to 149 of \<^verbatim>\<open>main\<close>: the prompt is resolved and the first code generated.\<close>

definition initial_code :: "world \<Rightarrow> args \<Rightarrow> state \<Rightarrow> error + string \<times> state" where
  "initial_code w a s =
     (if truthy (prompt a) then
        (let prompt' = (case files w (arg_value (prompt a)) of
                          Some text \<Rightarrow> text
                        | None \<Rightarrow> arg_value (prompt a))
         in call_chatgpt w prompt' (code_type a)
              ''Implement a script in a single code block to perform this task: '' s)
      else
        (case files w (arg_value (modify a)) of
           None \<Rightarrow> Inl FileNotFoundError
         | Some code \<Rightarrow>
             (case stdin w of
                None \<Rightarrow> Inl EOFError
              | Some prompt' \<Rightarrow>
                  call_chatgpt w prompt' (code_type a)
                    (''Modify the following code:\<newline>\<newline>'' @ code @ ''\<newline>\<newline>'') s)))"

text \<open>
  \<^verbatim>\<open>main\<close>. Both branches on the code type begin by saving the first code as
  \<^verbatim>\<open>initial\<close> (lines 152 and 160); the branch for \<^verbatim>\<open>latex\<close> then returns. An
  exception raised by a save outside the \<^verbatim>\<open>try\<close> block, by a request to the model or by
  reading a file ends the run. The save of \<^verbatim>\<open>final\<close> follows every way of leaving the
  loop by \<^verbatim>\<open>break\<close> or by running out of iterations.
\<close>

definition main :: "world \<Rightarrow> args \<Rightarrow> state \<times> exit" where
  "main w a =
     (let s0 = \<lparr>fs = files w, scripts_dir = scripts_exists w, saves = 0, writes = [],
                calls = [], execs = []\<rparr>
      in if \<not> truthy (prompt a) \<and> \<not> truthy (modify a) then (s0, Usage)
         else
           (case files w ''api_key.txt'' of
              None \<Rightarrow> (s0, Aborted StartupError)
            | Some api_key \<Rightarrow>
                (case initial_code w a s0 of
                   Inl e \<Rightarrow> (s0, Aborted e)
                 | Inr (code, s1) \<Rightarrow>
                     (case save_code_to_file w code (code_type a) 0 ''initial'' s1 of
                        (Some m, s2) \<Rightarrow> (s2, Aborted (SaveError m))
                      | (None, s2) \<Rightarrow>
                          if code_type a = ''latex'' then (s2, InitialOnly)
                          else
                            (case repair_loop w a [1..iterations a] code None s2 of
                               (code', s3, Finished h) \<Rightarrow>
                                 (case save_code_to_file w code' (code_type a) (iterations a)
                                         ''final'' s3 of
                                    (Some m, s4) \<Rightarrow> (s4, Aborted (SaveError m))
                                  | (None, s4) \<Rightarrow> (s4, Finished h))
                             | (code', s3, ex) \<Rightarrow> (s3, ex))))))"

subsection \<open>Notions for stating the properties\<close>

text \<open>The path \<^verbatim>\<open>save_code_to_file\<close> writes to, for a status and a code type.\<close>

definition artifact_path :: "string \<Rightarrow> string \<Rightarrow> string" where
  "artifact_path status ct =
     ''./scripts/script_'' @ status @ ''.'' @ (if ct = ''python'' then ''py'' else ct)"

text \<open>The state after a call of \<^verbatim>\<open>save_code_to_file\<close> that has written its file.\<close>

definition written :: "string \<Rightarrow> string \<Rightarrow> string \<Rightarrow> state \<Rightarrow> state" where
  "written code ct status s =
     s\<lparr>saves := Suc (saves s), scripts_dir := True,
       fs := (fs s)(artifact_path status ct \<mapsto> code),
       writes := writes s @ [(artifact_path status ct, code)]\<rparr>"

text \<open>The file system accepts every write: no call of \<^verbatim>\<open>save_code_to_file\<close> raises.\<close>

definition saves_succeed :: "world \<Rightarrow> bool" where
  "saves_succeed w =
     (makedirs_error w = None \<and> (\<forall>n p. open_error w n p = None) \<and>
      (\<forall>n p c. write_error w n p c = None))"

text \<open>The files that repaired codes are saved to, in the iterations \<open>js\<close>.\<close>

definition iteration_writes :: "string \<Rightarrow> int list \<Rightarrow> string list \<Rightarrow> (string \<times> string) list" where
  "iteration_writes ct js codes =
     map (\<lambda>(i, c). (artifact_path (''iteration_'' @ str_int i) ct, c)) (zip js codes)"

text \<open>The outcome that the variable \<^verbatim>\<open>last_error_message\<close> remembers.\<close>

definition prev_result :: "string option \<Rightarrow> exec_result list" where
  "prev_result last_error = (case last_error of None \<Rightarrow> [] | Some e \<Rightarrow> [Failure e])"

subsection \<open>Concrete runs\<close>

text \<open>A model that always answers with one fenced Python block, and code that runs.\<close>

definition reply_print :: string where
  "reply_print = ''Here you go:\<newline>```python\<newline>print(1)\<newline>```\<newline>Enjoy.''"

definition w_ok :: world where
  "w_ok = \<lparr>files = [''api_key.txt'' \<mapsto> ''sk-test''], scripts_exists = False, stdin = None,
            makedirs_error = None, open_error = (\<lambda>n p. None),
            write_error = (\<lambda>n p c. None),
            llm = (\<lambda>n m. Some reply_print), exec_py = (\<lambda>n c. Success)\<rparr>"

definition a_ok :: args where
  "a_ok = \<lparr>prompt = Some ''print one'', modify = None, code_type = ''python'', iterations = 5\<rparr>"

text \<open>Modify mode: \<^verbatim>\<open>--modify existing.py\<close>, the user types \<^verbatim>\<open>add y\<close>.\<close>

definition w_modify :: world where
  "w_modify = \<lparr>files = [''api_key.txt'' \<mapsto> ''sk-test'', ''existing.py'' \<mapsto> ''x = 1''],
                scripts_exists = False, stdin = Some ''add y'',
                makedirs_error = None, open_error = (\<lambda>n p. None),
                write_error = (\<lambda>n p c. None),
                llm = (\<lambda>n m. Some reply_print), exec_py = (\<lambda>n c. Success)\<rparr>"

definition a_modify :: args where
  "a_modify = \<lparr>prompt = None, modify = Some ''existing.py'', code_type = ''python'',
                iterations = 5\<rparr>"

text \<open>
  \<^verbatim>\<open>--prompt task.txt\<close> where \<^verbatim>\<open>task.txt\<close> is a file; the first execution raises
  \<^verbatim>\<open>division by zero\<close>, the second succeeds.
\<close>

definition w_file :: world where
  "w_file = \<lparr>files = [''api_key.txt'' \<mapsto> ''sk-test'', ''task.txt'' \<mapsto> ''divide''],
              scripts_exists = False, stdin = None,
              makedirs_error = None, open_error = (\<lambda>n p. None),
              write_error = (\<lambda>n p c. None),
              llm = (\<lambda>n m. Some reply_print),
              exec_py = (\<lambda>n c. if n = 0 then Failure ''division by zero'' else Success)\<rparr>"

definition a_file :: args where
  "a_file = \<lparr>prompt = Some ''task.txt'', modify = None, code_type = ''python'', iterations = 5\<rparr>"

text \<open>A run for the code type \<^verbatim>\<open>html\<close>.\<close>

definition w_html :: world where
  "w_html = \<lparr>files = [''api_key.txt'' \<mapsto> ''sk-test''], scripts_exists = False, stdin = None,
              makedirs_error = None, open_error = (\<lambda>n p. None),
              write_error = (\<lambda>n p c. None),
              llm = (\<lambda>n m. Some ''```html\<newline><p>hi</p>\<newline>```''),
              exec_py = (\<lambda>n c. Success)\<rparr>"

definition a_html :: args where
  "a_html = \<lparr>prompt = Some ''a page'', modify = None, code_type = ''html'', iterations = 5\<rparr>"

text \<open>Code that fails with the same error at every execution, and with a new error each time.\<close>

definition w_same :: world where
  "w_same = \<lparr>files = [''api_key.txt'' \<mapsto> ''sk-test''], scripts_exists = False, stdin = None,
              makedirs_error = None, open_error = (\<lambda>n p. None),
              write_error = (\<lambda>n p c. None),
              llm = (\<lambda>n m. Some reply_print), exec_py = (\<lambda>n c. Failure ''boom'')\<rparr>"

definition w_fresh :: world where
  "w_fresh = \<lparr>files = [''api_key.txt'' \<mapsto> ''sk-test''], scripts_exists = False, stdin = None,
               makedirs_error = None, open_error = (\<lambda>n p. None),
               write_error = (\<lambda>n p c. None),
               llm = (\<lambda>n m. Some reply_print),
               exec_py = (\<lambda>n c. Failure (''error '' @ str_nat n))\<rparr>"

definition a_two :: args where
  "a_two = \<lparr>prompt = Some ''print one'', modify = None, code_type = ''python'', iterations = 2\<rparr>"

text \<open>
  A file system with no directory below \<^verbatim>\<open>./scripts\<close>: a path with a further \<^verbatim>\<open>/\<close>
  cannot be opened. \<open>s_start\<close> is a state in which nothing has happened yet.
\<close>

definition w_strict :: world where
  "w_strict = \<lparr>files = [''api_key.txt'' \<mapsto> ''sk-test''], scripts_exists = False, stdin = None,
                makedirs_error = None,
                open_error = (\<lambda>n p. if CHR ''/'' \<in> set (drop 10 p)
                                      then Some (''[Errno 2] No such file or directory: '' @ p)
                                      else None),
                write_error = (\<lambda>n p c. None),
                llm = (\<lambda>n m. Some reply_print), exec_py = (\<lambda>n c. Success)\<rparr>"

definition s_start :: state where
  "s_start = \<lparr>fs = Map.empty, scripts_dir = False, saves = 0, writes = [], calls = [],
               execs = []\<rparr>"

section \<open>Auxiliary facts\<close>

subsection \<open>Frames of the operations\<close>

lemma written_writes [simp]:
  "writes (written c ct st s) = writes s @ [(artifact_path st ct, c)]"
  by (simp add: written_def)

lemma written_calls [simp]: "calls (written c ct st s) = calls s"
  by (simp add: written_def)

lemma written_execs [simp]: "execs (written c ct st s) = execs s"
  by (simp add: written_def)

lemma written_fs [simp]: "fs (written c ct st s) = (fs s)(artifact_path st ct \<mapsto> c)"
  by (simp add: written_def)

lemma save_ok:
  "saves_succeed w \<Longrightarrow> save_code_to_file w c ct i st s = (None, written c ct st s)"
  by (simp add: saves_succeed_def save_code_to_file_def written_def artifact_path_def Let_def)

lemma save_None:
  "save_code_to_file w c ct i st s = (None, s') \<Longrightarrow> s' = written c ct st s"
  by (auto simp: save_code_to_file_def written_def artifact_path_def Let_def
           split: if_splits option.splits prod.splits)

lemma save_frame:
  "save_code_to_file w c ct i st s = (r, s') \<Longrightarrow> calls s' = calls s \<and> execs s' = execs s"
  by (auto simp: save_code_to_file_def Let_def split: if_splits option.splits prod.splits)

lemma try_block_calls:
  "try_block w a i code s = (r, s') \<Longrightarrow> calls s' = calls s"
  by (auto simp: try_block_def Let_def split: exec_result.splits prod.splits option.splits
           dest: save_frame)

lemma try_block_ok:
  "saves_succeed w \<Longrightarrow>
     try_block w a i code s =
       (let r = exec_py w (length (execs s)) code;
            s1 = s\<lparr>execs := execs s @ [(code, r)]\<rparr>
        in (r, if r = Success then written code (code_type a) ''debugged'' s1 else s1))"
  by (simp add: try_block_def save_ok Let_def split: exec_result.splits)

lemma call_chatgpt_Inr:
  "call_chatgpt w p ct si s = Inr (c, s') \<Longrightarrow> \<exists>m. s' = s\<lparr>calls := calls s @ [(m, c)]\<rparr>"
  by (auto simp: call_chatgpt_def Let_def split: option.splits)

lemma debug_Inr:
  "debug_code_with_chatgpt w op c e ct s = Inr (c', s') \<Longrightarrow>
     \<exists>m. s' = s\<lparr>calls := calls s @ [(m, c')]\<rparr>"
  by (auto simp: debug_code_with_chatgpt_def Let_def dest: call_chatgpt_Inr)

lemma initial_code_Inr:
  "initial_code w a s = Inr (c, s') \<Longrightarrow> \<exists>m. s' = s\<lparr>calls := calls s @ [(m, c)]\<rparr>"
  by (auto simp: initial_code_def Let_def split: if_splits option.splits dest: call_chatgpt_Inr)

lemma iteration_writes_Nil [simp]: "iteration_writes ct js [] = []" "iteration_writes ct [] cs = []"
  by (simp_all add: iteration_writes_def)

lemma iteration_writes_Cons [simp]:
  "iteration_writes ct (i # js) (c # cs) =
     (artifact_path (''iteration_'' @ str_int i) ct, c) # iteration_writes ct js cs"
  by (simp add: iteration_writes_def)

lemma snd_last_Cons: "snd (last (x # xs)) = last (snd x # map snd xs)"
  using last_map[of "x # xs" snd] by simp

lemma take_upto: "int k \<le> n \<Longrightarrow> take k [1..n] = [1..int k]"
proof (induction k)
  case 0
  then show ?case by simp
next
  case (Suc k)
  then have "take (Suc k) [1..n] = take k [1..n] @ [[1..n] ! k]"
    by (simp add: take_Suc_conv_app_nth)
  also from Suc have "\<dots> = [1..int k] @ [1 + int k]" by simp
  also have "\<dots> = [1..int (Suc k)]" by (simp add: upto_rec2 add.commute)
  finally show ?case .
qed

lemma iteration_paths:
  "length cs \<le> length js \<Longrightarrow>
     map fst (iteration_writes ''python'' js cs) =
       map (\<lambda>i. ''./scripts/script_iteration_'' @ str_int i @ ''.py'') (take (length cs) js)"
proof (induction js arbitrary: cs)
  case Nil
  then show ?case by simp
next
  case (Cons j js)
  then show ?case by (cases cs) (simp_all add: artifact_path_def)
qed

lemma prev_result_length: "length (prev_result last_error) \<le> 1"
  by (simp add: prev_result_def split: option.splits)

subsection \<open>One round of the loop\<close>

lemma loop_other_type:
  "code_type a \<noteq> ''python'' \<Longrightarrow>
     repair_loop w a js code last_error s =
       (code, s, Finished (if js = [] then Exhausted else Unsupported))"
  by (cases js) simp_all

text \<open>The variable \<^verbatim>\<open>code\<close> after the loop is the last code that the model produced.\<close>

lemma loop_code:
  "repair_loop w a js code last_error s = (code', s', ex) \<Longrightarrow>
     \<exists>nc. calls s' = calls s @ nc \<and> code' = last (code # map snd nc)"
proof (induction js arbitrary: code last_error s)
  case Nil
  then show ?case by simp
next
  case (Cons i rest)
  show ?case
  proof (cases "code_type a = ''python''")
    case False
    with Cons.prems show ?thesis by (simp add: loop_other_type)
  next
    case True
    obtain r s1 where tb: "try_block w a i code s = (r, s1)"
      by (cases "try_block w a i code s") auto
    from try_block_calls[OF tb] have c1: "calls s1 = calls s" .
    show ?thesis
    proof (cases r)
      case Success
      with Cons.prems True tb c1 show ?thesis by auto
    next
      case Escape
      with Cons.prems True tb c1 show ?thesis by auto
    next
      case (Failure e)
      show ?thesis
      proof (cases "Some e = last_error")
        case True
        with Cons.prems \<open>code_type a = ''python''\<close> tb c1 Failure show ?thesis by auto
      next
        case fresh: False
        show ?thesis
        proof (cases "debug_code_with_chatgpt w (prompt a) code e (code_type a) s1")
          case (Inl err)
          with Cons.prems True tb c1 Failure fresh show ?thesis by auto
        next
          case (Inr p)
          obtain c2 s2 where p: "p = (c2, s2)" by (cases p)
          from Inr p obtain m where s2: "calls s2 = calls s @ [(m, c2)]"
            using c1 by (auto dest!: debug_Inr)
          obtain q s3 where sv: "save_code_to_file w c2 (code_type a) i
                                   (''iteration_'' @ str_int i) s2 = (q, s3)"
            by (cases "save_code_to_file w c2 (code_type a) i (''iteration_'' @ str_int i) s2")
               auto
          from save_frame[OF sv] s2 have s3: "calls s3 = calls s @ [(m, c2)]" by simp
          show ?thesis
          proof (cases q)
            case (Some msg)
            with Cons.prems True tb Failure fresh Inr p sv
            have "code' = c2 \<and> s' = s3" by auto
            with s3 have "calls s' = calls s @ [(m, c2)] \<and> code' = last (code # map snd [(m, c2)])"
              by simp
            then show ?thesis by blast
          next
            case None
            with Cons.prems True tb Failure fresh Inr p sv
            have "repair_loop w a rest c2 (Some e) s3 = (code', s', ex)" by auto
            from Cons.IH[OF this] obtain nc where
              "calls s' = calls s3 @ nc" "code' = last (c2 # map snd nc)" by blast
            with s3 have "calls s' = calls s @ ((m, c2) # nc) \<and>
                          code' = last (code # map snd ((m, c2) # nc))"
              by simp
            then show ?thesis by blast
          qed
        qed
      qed
    qed
  qed
qed

text \<open>One round of the loop on Python code, when every write succeeds.\<close>

lemma loop_python_cases:
  assumes "saves_succeed w" and "code_type a = ''python''"
      and "repair_loop w a (i # rest) code last_error s = (code', s', ex)"
  obtains
    (success) "exec_py w (length (execs s)) code = Success" "code' = code"
      "s' = written code ''python'' ''debugged'' (s\<lparr>execs := execs s @ [(code, Success)]\<rparr>)"
      "ex = Finished Succeeded"
  | (escape) "exec_py w (length (execs s)) code = Escape" "code' = code"
      "s' = s\<lparr>execs := execs s @ [(code, Escape)]\<rparr>" "ex = Aborted Escaped"
  | (stagnant) e where "exec_py w (length (execs s)) code = Failure e" "last_error = Some e"
      "code' = code" "s' = s\<lparr>execs := execs s @ [(code, Failure e)]\<rparr>"
      "ex = Finished Stagnant"
  | (transport) e err where "exec_py w (length (execs s)) code = Failure e"
      "last_error \<noteq> Some e" "code' = code"
      "s' = s\<lparr>execs := execs s @ [(code, Failure e)]\<rparr>" "ex = Aborted err"
  | (repair) e m c1 s2 where "exec_py w (length (execs s)) code = Failure e"
      "last_error \<noteq> Some e"
      "calls s2 = calls s @ [(m, c1)]" "execs s2 = execs s @ [(code, Failure e)]"
      "writes s2 = writes s"
      "repair_loop w a rest c1 (Some e)
         (written c1 ''python'' (''iteration_'' @ str_int i) s2) = (code', s', ex)"
proof (cases "exec_py w (length (execs s)) code")
  case Success
  with assms have "code' = code \<and> ex = Finished Succeeded \<and>
      s' = written code ''python'' ''debugged'' (s\<lparr>execs := execs s @ [(code, Success)]\<rparr>)"
    by (auto simp: Let_def try_block_ok save_ok)
  with Success show ?thesis by (intro success) simp_all
next
  case Escape
  with assms have "code' = code \<and> ex = Aborted Escaped \<and>
      s' = s\<lparr>execs := execs s @ [(code, Escape)]\<rparr>"
    by (auto simp: Let_def try_block_ok save_ok)
  with Escape show ?thesis by (intro escape) simp_all
next
  case (Failure e)
  let ?s1 = "s\<lparr>execs := execs s @ [(code, Failure e)]\<rparr>"
  show ?thesis
  proof (cases "last_error = Some e")
    case True
    with assms Failure have "code' = code \<and> ex = Finished Stagnant \<and> s' = ?s1"
      by (auto simp: Let_def try_block_ok save_ok)
    with Failure True show ?thesis by (intro stagnant[of e]) simp_all
  next
    case fresh: False
    show ?thesis
    proof (cases "debug_code_with_chatgpt w (prompt a) code e ''python'' ?s1")
      case (Inl err)
      with assms Failure fresh have "code' = code \<and> ex = Aborted err \<and> s' = ?s1"
        by (auto simp: Let_def try_block_ok save_ok)
      with Failure fresh show ?thesis by (intro transport[of e err]) simp_all
    next
      case (Inr p)
      obtain c1 s2 where p: "p = (c1, s2)" by (cases p)
      from Inr p obtain m where s2: "s2 = ?s1\<lparr>calls := calls ?s1 @ [(m, c1)]\<rparr>"
        by (auto dest: debug_Inr)
      from assms Failure fresh Inr p
      have "repair_loop w a rest c1 (Some e)
              (written c1 ''python'' (''iteration_'' @ str_int i) s2) = (code', s', ex)"
        by (auto simp: Let_def try_block_ok save_ok)
      with Failure fresh s2 show ?thesis by (intro repair[of e s2 m c1]) simp_all
    qed
  qed
qed

subsection \<open>The loop as a whole\<close>

text \<open>What a run of the loop on Python code adds to the three logs, when every write
  succeeds.\<close>

lemma loop_effects:
  assumes "saves_succeed w" and "code_type a = ''python''"
      and "repair_loop w a js code last_error s = (code', s', ex)"
  shows "\<exists>nc ne. calls s' = calls s @ nc \<and> execs s' = execs s @ ne \<and>
           length nc \<le> length js \<and> code' = last (code # map snd nc) \<and>
           map fst ne = take (length ne) (code # map snd nc) \<and>
           length ne = (if ex = Finished Exhausted then length nc else Suc (length nc)) \<and>
           (ex = Finished Exhausted \<longrightarrow> length nc = length js) \<and>
           writes s' = writes s @ iteration_writes ''python'' js (map snd nc)
             @ (if ex = Finished Succeeded then [(artifact_path ''debugged'' ''python'', code')]
                else [])"
  using assms(3)
proof (induction js arbitrary: code last_error s)
  case Nil
  then show ?case by auto
next
  case (Cons i rest)
  from assms(1,2) Cons.prems show ?case
  proof (cases rule: loop_python_cases)
    case (repair e m c1 s2)
    from Cons.IH[OF repair(6)] obtain nc ne where IH:
      "calls s' = calls s2 @ nc" "execs s' = execs s2 @ ne" "length nc \<le> length rest"
      "code' = last (c1 # map snd nc)"
      "map fst ne = take (length ne) (c1 # map snd nc)"
      "length ne = (if ex = Finished Exhausted then length nc else Suc (length nc))"
      "ex = Finished Exhausted \<longrightarrow> length nc = length rest"
      "writes s' = (writes s2 @ [(artifact_path (''iteration_'' @ str_int i) ''python'', c1)])
         @ iteration_writes ''python'' rest (map snd nc)
         @ (if ex = Finished Succeeded then [(artifact_path ''debugged'' ''python'', code')] else [])"
      by auto
    let ?nc = "(m, c1) # nc" and ?ne = "(code, Failure e) # ne"
    have "calls s' = calls s @ ?nc" "execs s' = execs s @ ?ne" "length ?nc \<le> length (i # rest)"
      using IH(1,2,3) repair(3,4) by simp_all
    moreover have "code' = last (code # map snd ?nc)"
      using IH(4) by simp
    moreover have "map fst ?ne = take (length ?ne) (code # map snd ?nc)"
      using IH(5) by simp
    moreover have "length ?ne = (if ex = Finished Exhausted then length ?nc else Suc (length ?nc))"
      using IH(6) by simp
    moreover have "ex = Finished Exhausted \<longrightarrow> length ?nc = length (i # rest)"
      using IH(7) by simp
    moreover have "writes s' = writes s @ iteration_writes ''python'' (i # rest) (map snd ?nc)
             @ (if ex = Finished Succeeded then [(artifact_path ''debugged'' ''python'', code')]
                else [])"
      using IH(8) repair(5) by simp
    ultimately show ?thesis by blast
  next
    case success
    then show ?thesis
      by (intro exI[of _ "[]"] exI[of _ "[(code, Success)]"]) simp
  next
    case escape
    then show ?thesis
      by (intro exI[of _ "[]"] exI[of _ "[(code, Escape)]"]) simp
  next
    case (stagnant e)
    then show ?thesis
      by (intro exI[of _ "[]"] exI[of _ "[(code, Failure e)]"]) simp
  next
    case (transport e err)
    then show ?thesis
      by (intro exI[of _ "[]"] exI[of _ "[(code, Failure e)]"]) simp
  qed
qed

lemma loop_execs_frame:
  assumes "saves_succeed w" and "code_type a = ''python''"
      and "repair_loop w a js code last_error s = (code', s', ex)"
  shows "\<exists>ne. execs s' = execs s @ ne"
  using loop_effects[OF assms] by blast

text \<open>Two equal failures in a row end the loop, and only as its last two executions.\<close>

lemma loop_stagnation:
  assumes "saves_succeed w" and "code_type a = ''python''"
      and "repair_loop w a js code last_error s = (code', s', ex)"
      and "execs s' = execs s @ ne"
      and "prev_result last_error @ map snd ne = xs @ [Failure e, Failure e] @ ys"
  shows "ys = [] \<and> ex = Finished Stagnant"
  using assms(3-)
proof (induction js arbitrary: code last_error s ne xs)
  case Nil
  then have "ne = []" by simp
  with Nil.prems(3) prev_result_length[of last_error] show ?case
    by (cases last_error) (auto simp: prev_result_def)
next
  case (Cons i rest)
  from assms(1,2) Cons.prems(1) show ?case
  proof (cases rule: loop_python_cases)
    case success
    with Cons.prems(2) have "ne = [(code, Success)]" by simp
    with Cons.prems(3) show ?thesis
      by (cases last_error; cases xs; cases ys)
         (auto simp: prev_result_def Cons_eq_append_conv)
  next
    case escape
    with Cons.prems(2) have "ne = [(code, Escape)]" by simp
    with Cons.prems(3) show ?thesis
      by (cases last_error; cases xs; cases ys)
         (auto simp: prev_result_def Cons_eq_append_conv)
  next
    case (stagnant e')
    with Cons.prems(2) have "ne = [(code, Failure e')]" by simp
    with Cons.prems(3) stagnant show ?thesis
      by (cases xs; cases ys) (auto simp: prev_result_def Cons_eq_append_conv)
  next
    case (transport e' err)
    with Cons.prems(2) have "ne = [(code, Failure e')]" by simp
    with Cons.prems(3) transport(2) show ?thesis
      by (cases last_error; cases xs; cases ys)
         (auto simp: prev_result_def Cons_eq_append_conv)
  next
    case (repair e' m c1 s2)
    let ?s = "written c1 ''python'' (''iteration_'' @ str_int i) s2"
    from loop_execs_frame[OF assms(1,2) repair(6)] obtain ne' where
      ne': "execs s' = execs ?s @ ne'" by blast
    with Cons.prems(2) repair(4) have ne: "ne = (code, Failure e') # ne'" by simp
    have "\<exists>xs'. prev_result (Some e') @ map snd ne' = xs' @ [Failure e, Failure e] @ ys"
    proof (cases last_error)
      case None
      with Cons.prems(3) ne show ?thesis by (auto simp: prev_result_def)
    next
      case (Some e0)
      with repair(2) have "e0 \<noteq> e'" by simp
      with Cons.prems(3) ne Some show ?thesis
        by (cases xs) (auto simp: prev_result_def)
    qed
    then obtain xs' where
      "prev_result (Some e') @ map snd ne' = xs' @ [Failure e, Failure e] @ ys" by blast
    from Cons.IH[OF repair(6) ne' this] show ?thesis .
  qed
qed

text \<open>A loop that ends with no success and no failure repeated has run out of iterations.\<close>

lemma loop_exhausted:
  assumes "saves_succeed w" and "code_type a = ''python''"
      and "repair_loop w a js code last_error s = (code', s', Finished h)"
      and "execs s' = execs s @ ne"
      and "distinct_adj (prev_result last_error @ map snd ne)"
      and "Success \<notin> snd ` set ne"
  shows "h = Exhausted"
  using assms(3-)
proof (induction js arbitrary: code last_error s ne)
  case Nil
  then show ?case by simp
next
  case (Cons i rest)
  from assms(1,2) Cons.prems(1) show ?case
  proof (cases rule: loop_python_cases)
    case success
    with Cons.prems(2,4) show ?thesis by auto
  next
    case escape
    then show ?thesis by simp
  next
    case (stagnant e')
    with Cons.prems(2) have "ne = [(code, Failure e')]" by simp
    with Cons.prems(3) stagnant(2) show ?thesis by (simp add: prev_result_def)
  next
    case (transport e' err)
    then show ?thesis by simp
  next
    case (repair e' m c1 s2)
    let ?s = "written c1 ''python'' (''iteration_'' @ str_int i) s2"
    from loop_execs_frame[OF assms(1,2) repair(6)] obtain ne' where
      ne': "execs s' = execs ?s @ ne'" by blast
    with Cons.prems(2) repair(4) have ne: "ne = (code, Failure e') # ne'" by simp
    from Cons.prems(3) ne have "distinct_adj (prev_result (Some e') @ map snd ne')"
      by (cases last_error) (auto simp: prev_result_def)
    moreover from Cons.prems(4) ne have "Success \<notin> snd ` set ne'" by auto
    ultimately show ?thesis using Cons.IH[OF repair(6) ne'] by blast
  qed
qed

text \<open>A first execution that succeeds ends the loop at once.\<close>

lemma loop_first_success:
  assumes "saves_succeed w" and "code_type a = ''python''"
      and "repair_loop w a js code last_error s = (code', s', ex)"
      and "execs s' = execs s @ ne" and "ne \<noteq> []" and "snd (hd ne) = Success"
  shows "ex = Finished Succeeded \<and> code' = code \<and> ne = [(code, Success)] \<and>
         calls s' = calls s \<and>
         writes s' = writes s @ [(artifact_path ''debugged'' ''python'', code)]"
proof (cases js)
  case Nil
  with assms(3,4,5) show ?thesis by simp
next
  case (Cons i rest)
  from assms(1,2) assms(3)[unfolded Cons] show ?thesis
  proof (cases rule: loop_python_cases)
    case success
    with assms(4) show ?thesis by simp
  next
    case escape
    with assms(4,6) show ?thesis by auto
  next
    case (stagnant e')
    with assms(4,6) show ?thesis by auto
  next
    case (transport e' err)
    with assms(4,6) show ?thesis by auto
  next
    case (repair e' m c1 s2)
    from loop_execs_frame[OF assms(1,2) repair(6)] obtain ne' where
      "execs s' = execs (written c1 ''python'' (''iteration_'' @ str_int i) s2) @ ne'"
      by blast
    with assms(4) repair(4) have "ne = (code, Failure e') # ne'" by simp
    with assms(6) show ?thesis by simp
  qed
qed

subsection \<open>The shape of a run\<close>

text \<open>A run that ends after the loop has generated a first code, saved it as \<open>initial\<close>,
  run the loop from there and saved the result as \<open>final\<close>.\<close>

lemma main_finished:
  assumes "main w a = (s, Finished h)"
  obtains m c0 s1 code' s3 where
    "calls s1 = [(m, c0)]" "execs s1 = []"
    "writes s1 = [(artifact_path ''initial'' (code_type a), c0)]"
    "repair_loop w a [1..iterations a] c0 None s1 = (code', s3, Finished h)"
    "s = written code' (code_type a) ''final'' s3"
proof -
  let ?s0 = "\<lparr>fs = files w, scripts_dir = scripts_exists w, saves = 0, writes = [],
              calls = [], execs = []\<rparr>"
  from assms obtain c0 s0' where ic: "initial_code w a ?s0 = Inr (c0, s0')"
    and key: "files w ''api_key.txt'' \<noteq> None"
    and args: "truthy (prompt a) \<or> truthy (modify a)"
    by (auto simp: main_def Let_def split: if_splits option.splits sum.splits)
  from initial_code_Inr[OF ic] obtain m where s0': "s0' = ?s0\<lparr>calls := [(m, c0)]\<rparr>" by auto
  obtain q s1 where sv: "save_code_to_file w c0 (code_type a) 0 ''initial'' s0' = (q, s1)"
    by (cases "save_code_to_file w c0 (code_type a) 0 ''initial'' s0'") auto
  from assms ic key args sv have q: "q = None" and nl: "code_type a \<noteq> ''latex''"
    by (auto simp: main_def Let_def split: if_splits option.splits)
  from save_None[OF sv[unfolded q]] have s1: "s1 = written c0 (code_type a) ''initial'' s0'" .
  obtain code' s3 lex where
    loop: "repair_loop w a [1..iterations a] c0 None s1 = (code', s3, lex)"
    by (cases "repair_loop w a [1..iterations a] c0 None s1") auto
  obtain q' s4 where sv': "save_code_to_file w code' (code_type a) (iterations a) ''final'' s3
                             = (q', s4)"
    by (cases "save_code_to_file w code' (code_type a) (iterations a) ''final'' s3") auto
  from assms ic key args sv q nl loop sv'
  have "lex = Finished h \<and> q' = None \<and> s4 = s"
    by (auto simp: main_def Let_def split: exit.splits option.splits)
  then have lex: "lex = Finished h" and fin: "save_code_to_file w code' (code_type a)
      (iterations a) ''final'' s3 = (None, s)"
    using sv' by simp_all
  show ?thesis
  proof (rule that[of s1 m c0 code' s3])
    show "calls s1 = [(m, c0)]" "execs s1 = []"
      "writes s1 = [(artifact_path ''initial'' (code_type a), c0)]"
      by (simp_all add: s1 s0')
    show "repair_loop w a [1..iterations a] c0 None s1 = (code', s3, Finished h)"
      using loop lex by simp
    show "s = written code' (code_type a) ''final'' s3"
      using save_None[OF fin] .
  qed
qed

text \<open>A run that executes code, when every write succeeds.\<close>

lemma main_reaches_loop:
  assumes "saves_succeed w" and "main w a = (s, ex)"
      and "execs s \<noteq> []"
  obtains m c0 s1 code' s3 where
    "calls s1 = [(m, c0)]" "execs s1 = []"
    "writes s1 = [(artifact_path ''initial'' (code_type a), c0)]"
    "repair_loop w a [1..iterations a] c0 None s1 = (code', s3, ex)"
    "execs s = execs s3" "calls s = calls s3"
    "writes s = writes s3 @
       (case ex of Finished h \<Rightarrow> [(artifact_path ''final'' (code_type a), code')] | _ \<Rightarrow> [])"
proof -
  let ?s0 = "\<lparr>fs = files w, scripts_dir = scripts_exists w, saves = 0, writes = [],
              calls = [], execs = []\<rparr>"
  from assms obtain c0 s0' where ic: "initial_code w a ?s0 = Inr (c0, s0')"
    and key: "files w ''api_key.txt'' \<noteq> None"
    and args: "truthy (prompt a) \<or> truthy (modify a)"
    by (auto simp: main_def Let_def split: if_splits option.splits sum.splits)
  from initial_code_Inr[OF ic] obtain m where s0': "s0' = ?s0\<lparr>calls := [(m, c0)]\<rparr>" by auto
  let ?s1 = "written c0 (code_type a) ''initial'' s0'"
  from assms ic key args have nl: "code_type a \<noteq> ''latex''"
    by (auto simp: main_def Let_def s0' save_ok split: if_splits)
  obtain code' s3 lex where
    loop: "repair_loop w a [1..iterations a] c0 None ?s1 = (code', s3, lex)"
    by (cases "repair_loop w a [1..iterations a] c0 None ?s1") auto
  from assms(1,2) ic key args nl loop
  have res: "(s, ex) = (case lex of
                 Finished h \<Rightarrow> (written code' (code_type a) ''final'' s3, lex)
               | _ \<Rightarrow> (s3, lex))"
    by (auto simp: main_def Let_def save_ok split: exit.splits)
  then have ex: "ex = lex" by (cases lex) auto
  show ?thesis
  proof (rule that[of ?s1 m c0 code' s3])
    show "calls ?s1 = [(m, c0)]" "execs ?s1 = []"
      "writes ?s1 = [(artifact_path ''initial'' (code_type a), c0)]"
      by (simp_all add: s0')
    show "repair_loop w a [1..iterations a] c0 None ?s1 = (code', s3, ex)"
      using loop ex by simp
    show "execs s = execs s3" "calls s = calls s3"
      using res by (cases lex; simp)+
    show "writes s = writes s3 @
       (case ex of Finished h \<Rightarrow> [(artifact_path ''final'' (code_type a), code')] | _ \<Rightarrow> [])"
      using res ex by (cases lex) auto
  qed
qed

subsection \<open>Searching and slicing\<close>

lemma find_at_first:
  "\<forall>j<length pre. take (length sub) (drop j (pre @ sub @ rest)) \<noteq> sub \<Longrightarrow>
     find_at sub (pre @ sub @ rest) i = int (i + length pre)"
proof (induction pre arbitrary: i)
  case Nil
  show ?case
  proof (cases "sub @ rest")
    case Nil
    then show ?thesis by simp
  next
    case (Cons x xs)
    have "take (length sub) (sub @ rest) = sub" by simp
    then have "take (length sub) (x # xs) = sub" unfolding Cons .
    then show ?thesis using Cons by simp
  qed
next
  case (Cons p pre)
  from Cons.prems have "take (length sub) (drop 0 ((p # pre) @ sub @ rest)) \<noteq> sub"
    by (metis length_greater_0_conv list.distinct(1))
  then have 1: "take (length sub) (p # pre @ sub @ rest) \<noteq> sub" by simp
  have 2: "\<forall>j<length pre. take (length sub) (drop j (pre @ sub @ rest)) \<noteq> sub"
  proof (intro allI impI)
    fix j assume "j < length pre"
    then have "Suc j < length (p # pre)" by simp
    with Cons.prems have "take (length sub) (drop (Suc j) ((p # pre) @ sub @ rest)) \<noteq> sub"
      by blast
    then show "take (length sub) (drop j (pre @ sub @ rest)) \<noteq> sub" by simp
  qed
  from Cons.IH[OF 2, of "Suc i"] 1 show ?case by simp
qed

lemma occurrence_inside:
  assumes "take (length sub) (drop j pre) = sub"
  shows "sublist sub pre"
proof -
  have "pre = take j pre @ take (length sub) (drop j pre) @ drop (length sub) (drop j pre)"
    by (simp only: append_take_drop_id)
  with assms have "pre = take j pre @ sub @ drop (length sub) (drop j pre)" by simp
  then show ?thesis unfolding sublist_def by blast
qed

lemma take_drop_inside:
  "j + n \<le> length pre \<Longrightarrow> take n (drop j (pre @ zs)) = take n (drop j pre)"
  by simp

lemma nth_take_drop:
  "k < n \<Longrightarrow> take n (drop j zs) ! k = drop j zs ! k"
  by simp

text \<open>A word whose last character occurs nowhere else in it cannot begin before the end of
  \<open>pre\<close> and end inside a copy of itself that follows \<open>pre\<close>.\<close>

lemma no_overlap_last:
  assumes "\<not> sublist (bs @ [c]) pre" and "c \<notin> set bs" and "j < length pre"
  shows "take (length (bs @ [c])) (drop j (pre @ (bs @ [c]) @ rest)) \<noteq> bs @ [c]"
proof
  let ?sub = "bs @ [c]" and ?n = "Suc (length bs)"
  let ?all = "pre @ ?sub @ rest"
  assume eq: "take (length ?sub) (drop j ?all) = ?sub"
  show False
  proof (cases "j + ?n \<le> length pre")
    case True
    then have "j + length ?sub \<le> length pre" by simp
    from take_drop_inside[OF this, of "?sub @ rest"]
    have "take (length ?sub) (drop j ?all) = take (length ?sub) (drop j pre)" .
    from trans[OF this[symmetric] eq]
    have "take (length ?sub) (drop j pre) = ?sub" .
    from occurrence_inside[OF this] assms(1) show False by (simp only: not_True_eq_False)
  next
    case False
    define d where "d = length pre - j"
    with False assms(3) have d: "0 < d" "d \<le> length bs" "j + d = length pre" by simp_all
    have len: "j + length bs < length ?all" using assms(3) by simp
    have lt: "length bs - d < length bs" using d by arith
    have "?sub ! length bs = take (length ?sub) (drop j ?all) ! length bs"
      using eq by simp
    also have "\<dots> = drop j ?all ! length bs"
      by (rule nth_take_drop) simp
    also have "\<dots> = ?all ! (j + length bs)"
      using len by (simp only: nth_drop)
    also have "\<dots> = (?sub @ rest) ! (j + length bs - length pre)"
      using d by (simp only: nth_append) simp
    also have "j + length bs - length pre = length bs - d"
      using d by arith
    also have "(?sub @ rest) ! (length bs - d) = bs ! (length bs - d)"
      using lt by (simp add: nth_append)
    finally have "c = bs ! (length bs - d)" by simp
    with lt have "c \<in> set bs" using nth_mem by metis
    with assms(2) show False by simp
  qed
qed

text \<open>Likewise for a word whose first character occurs nowhere else in it.\<close>

lemma no_overlap_first:
  assumes "\<not> sublist (c # cs) body" and "c \<notin> set cs" and "j < length body"
  shows "take (length (c # cs)) (drop j (body @ (c # cs) @ rest)) \<noteq> c # cs"
proof
  let ?sub = "c # cs" and ?n = "Suc (length cs)"
  let ?all = "body @ ?sub @ rest"
  assume eq: "take (length ?sub) (drop j ?all) = ?sub"
  show False
  proof (cases "j + ?n \<le> length body")
    case True
    then have "j + length ?sub \<le> length body" by simp
    from take_drop_inside[OF this, of "?sub @ rest"]
    have "take (length ?sub) (drop j ?all) = take (length ?sub) (drop j body)" .
    from trans[OF this[symmetric] eq]
    have "take (length ?sub) (drop j body) = ?sub" .
    from occurrence_inside[OF this] assms(1) show False by (simp only: not_True_eq_False)
  next
    case False
    define d where "d = length body - j"
    with False assms(3) have d: "0 < d" "d \<le> length cs" "j + d = length body" by simp_all
    have len: "j + d < length ?all" using d by simp
    have "?sub ! d = take (length ?sub) (drop j ?all) ! d"
      using eq by simp
    also have "\<dots> = drop j ?all ! d"
      by (rule nth_take_drop) (use d in simp)
    also have "\<dots> = ?all ! (j + d)"
      using len by (simp only: nth_drop)
    also have "\<dots> = ?all ! length body"
      using d by simp
    also have "\<dots> = c"
      by (simp add: nth_append)
    finally have "?sub ! d = c" .
    with d have "cs ! (d - 1) = c" by (cases d) simp_all
    moreover have "d - 1 < length cs" using d by simp
    ultimately have "c \<in> set cs" using nth_mem by metis
    with assms(2) show False by simp
  qed
qed

lemma py_find_from:
  "k \<le> length s \<Longrightarrow> py_find s sub (int k) = find_at sub (drop k s) k"
  by (simp add: py_find_def Let_def)

lemma py_slice_between:
  "a \<le> b \<Longrightarrow> b \<le> length s \<Longrightarrow> py_slice s (int a) (int b) = take (b - a) (drop a s)"
  by (simp add: py_slice_def py_index_def Let_def)

text \<open>A reply in which the opening tag first occurs after \<open>pre\<close> and the next closing fence
  after it is the one after \<open>body\<close>.\<close>

lemma extract_code_first_block:
  assumes "\<forall>j<length pre. take (length tag) (drop j (pre @ tag @ body @ close @ post)) \<noteq> tag"
      and "\<forall>j<length body. take (length close) (drop j (body @ close @ post)) \<noteq> close"
      and "tag = ''```'' @ ct @ ''\<newline>''" and "close = ''\<newline>```''"
  shows "extract_code (pre @ tag @ body @ close @ post) ct = body"
proof -
  define rest where "rest = body @ close @ post"
  define content where "content = pre @ tag @ rest"
  have len: "length content = length pre + length tag + length body + length close + length post"
    by (simp add: content_def rest_def)
  from assms(1) have "\<forall>j<length pre. take (length tag) (drop j (pre @ tag @ rest)) \<noteq> tag"
    by (simp only: rest_def)
  from find_at_first[OF this, of 0]
  have "find_at tag content 0 = int (length pre)" by (simp add: content_def)
  moreover have "py_find content tag 0 = find_at tag content 0"
    using py_find_from[of 0 content tag] by simp
  ultimately have F1: "py_find content tag 0 = int (length pre)" by simp
  from find_at_first[OF assms(2), of "length pre + length tag"]
  have "find_at close rest (length pre + length tag)
          = int (length pre + length tag + length body)"
    by (simp add: rest_def)
  moreover have "drop (length pre + length tag) content = rest"
    by (simp add: content_def)
  moreover have "length pre + length tag \<le> length content" by (simp add: len)
  ultimately have "py_find content close (int (length pre + length tag))
                     = int (length pre + length tag + length body)"
    using py_find_from[of "length pre + length tag" content close] by simp
  then have F2: "py_find content close (int (length pre) + int (length tag))
                   = int (length pre + length tag + length body)"
    by simp
  have "py_slice content (int (length pre + length tag)) (int (length pre + length tag + length body))
          = take (length pre + length tag + length body - (length pre + length tag))
              (drop (length pre + length tag) content)"
    by (rule py_slice_between) (simp_all add: len)
  also have "\<dots> = take (length body) rest"
    by (simp add: content_def)
  also have "\<dots> = body" by (simp add: rest_def)
  finally have F3: "py_slice content (int (length pre) + int (length tag))
                      (int (length pre + length tag + length body)) = body"
    by simp
  have "extract_code content ct = body"
    unfolding extract_code_def Let_def assms(3)[symmetric] assms(4)[symmetric]
    by (simp only: F1 F2 F3)
  then show ?thesis by (simp only: content_def rest_def)
qed

text \<open>For a code type without a newline, it is enough that the tag does not occur in \<open>pre\<close>
  and the fence does not occur in \<open>body\<close>.\<close>

lemma extract_code_block:
  assumes "CHR ''\<newline>'' \<notin> set ct"
      and "\<not> sublist (''```'' @ ct @ ''\<newline>'') pre"
      and "\<not> sublist ''\<newline>```'' body"
  shows "extract_code (pre @ ''```'' @ ct @ ''\<newline>'' @ body @ ''\<newline>```'' @ post) ct = body"
proof -
  define tag where "tag = ''```'' @ ct @ ''\<newline>''"
  define close where "close = ''\<newline>```''"
  have tg: "tag = (''```'' @ ct) @ [CHR ''\<newline>'']" by (simp add: tag_def)
  have cl: "close = CHR ''\<newline>'' # ''```''" by (simp add: close_def)
  have A: "\<not> sublist ((''```'' @ ct) @ [CHR ''\<newline>'']) pre"
    using assms(2) by simp
  have B: "CHR ''\<newline>'' \<notin> set (''```'' @ ct)"
    using assms(1) by simp
  have 1: "\<forall>j<length pre. take (length tag) (drop j (pre @ tag @ body @ close @ post)) \<noteq> tag"
  proof (intro allI impI)
    fix j assume "j < length pre"
    from no_overlap_last[OF A B this, of "body @ close @ post"]
    show "take (length tag) (drop j (pre @ tag @ body @ close @ post)) \<noteq> tag" unfolding tg .
  qed
  have C: "\<not> sublist (CHR ''\<newline>'' # ''```'') body" using assms(3) by simp
  have D: "CHR ''\<newline>'' \<notin> set ''```''" by simp
  have 2: "\<forall>j<length body. take (length close) (drop j (body @ close @ post)) \<noteq> close"
  proof (intro allI impI)
    fix j assume "j < length body"
    from no_overlap_first[OF C D this, of post]
    show "take (length close) (drop j (body @ close @ post)) \<noteq> close" unfolding cl .
  qed
  from extract_code_first_block[OF 1 2 tag_def close_def]
  show ?thesis by (simp add: tag_def close_def)
qed

section \<open>Properties\<close>

subsection \<open>The artifact store\<close>

text \<open>
  C10. The iteration argument of \<^verbatim>\<open>save_code_to_file\<close> has no effect: two calls that
  differ only in the iteration have the same outcome and leave the same state. The call
  writes its file exactly when the directory \<^verbatim>\<open>./scripts\<close> exists or can be created,
  the file can be opened and the text can be written to it. When it does, the code is
  written to \<^verbatim>\<open>./scripts/script_<status>.<ext>\<close>, where the extension is \<^verbatim>\<open>py\<close> for
  the code type \<^verbatim>\<open>python\<close> and the code type itself otherwise; when it raises, no file
  is written in full and no file but that one is touched.
\<close>

theorem save_code_to_file_ignores_iteration:
  "save_code_to_file w code ct i status s = save_code_to_file w code ct j status s \<and>
   ((fst (save_code_to_file w code ct i status s) = None) =
      ((scripts_dir s \<or> makedirs_error w = None) \<and>
       open_error w (saves s)
         (''./scripts/script_'' @ status @ ''.'' @ (if ct = ''python'' then ''py'' else ct)) = None \<and>
       write_error w (saves s)
         (''./scripts/script_'' @ status @ ''.'' @ (if ct = ''python'' then ''py'' else ct)) code
           = None)) \<and>
   (fst (save_code_to_file w code ct i status s) = None \<longrightarrow>
      writes (snd (save_code_to_file w code ct i status s)) =
        writes s @ [(''./scripts/script_'' @ status @ ''.'' @ (if ct = ''python'' then ''py'' else ct),
                     code)] \<and>
      fs (snd (save_code_to_file w code ct i status s)) =
        (fs s)(''./scripts/script_'' @ status @ ''.'' @ (if ct = ''python'' then ''py'' else ct)
               \<mapsto> code)) \<and>
   (fst (save_code_to_file w code ct i status s) \<noteq> None \<longrightarrow>
      writes (snd (save_code_to_file w code ct i status s)) = writes s \<and>
      (\<forall>p. p \<noteq> ''./scripts/script_'' @ status @ ''.'' @ (if ct = ''python'' then ''py'' else ct)
         \<longrightarrow> fs (snd (save_code_to_file w code ct i status s)) p = fs s p))"
  by (auto simp: save_code_to_file_def Let_def split: option.splits)

text \<open>
  The property at a call that writes \<^verbatim>\<open>./scripts/script_debugged.py\<close>, and at a call for
  the code type \<^verbatim>\<open>a/b\<close> that cannot open its file.
\<close>

theorem save_code_to_file_ignores_iteration_witness:
  "save_code_to_file w_ok ''print(1)'' ''python'' 1 ''debugged'' s_start =
     save_code_to_file w_ok ''print(1)'' ''python'' 2 ''debugged'' s_start \<and>
   fst (save_code_to_file w_ok ''print(1)'' ''python'' 1 ''debugged'' s_start) = None \<and>
   writes (snd (save_code_to_file w_ok ''print(1)'' ''python'' 1 ''debugged'' s_start)) =
     [(''./scripts/script_debugged.py'', ''print(1)'')] \<and>
   fst (save_code_to_file w_strict ''x'' ''a/b'' 1 ''initial'' s_start) \<noteq> None \<and>
   writes (snd (save_code_to_file w_strict ''x'' ''a/b'' 1 ''initial'' s_start)) = []"
proof -
  note a = save_code_to_file_ignores_iteration
             [of w_ok "''print(1)''" "''python''" 1 "''debugged''" s_start 2]
  note b = save_code_to_file_ignores_iteration
             [of w_strict "''x''" "''a/b''" 1 "''initial''" s_start 1]
  have ok: "fst (save_code_to_file w_ok ''print(1)'' ''python'' 1 ''debugged'' s_start) = None"
    by code_simp
  have no: "fst (save_code_to_file w_strict ''x'' ''a/b'' 1 ''initial'' s_start) \<noteq> None"
    by code_simp
  have s: "writes s_start = []" by (simp add: s_start_def)
  have 1: "save_code_to_file w_ok ''print(1)'' ''python'' 1 ''debugged'' s_start =
     save_code_to_file w_ok ''print(1)'' ''python'' 2 ''debugged'' s_start"
    using a by (rule conjunct1)
  have 2: "writes (snd (save_code_to_file w_ok ''print(1)'' ''python'' 1 ''debugged'' s_start)) =
     [(''./scripts/script_debugged.py'', ''print(1)'')]"
    using a[THEN conjunct2, THEN conjunct2] ok s by simp
  have 3: "writes (snd (save_code_to_file w_strict ''x'' ''a/b'' 1 ''initial'' s_start)) = []"
    using b[THEN conjunct2, THEN conjunct2] no s by simp
  from 1 ok 2 no 3 show ?thesis by blast
qed

subsection \<open>The model gateway\<close>

text \<open>
  C1. In modify mode the generation call is meant to carry the prefix
  \<^verbatim>\<open>Modify the following code:\<close> followed by the contents of the file. The code passes
  that prefix to \<^verbatim>\<open>call_chatgpt\<close>, which overwrites it: the result of
  \<^verbatim>\<open>call_chatgpt\<close> does not depend on the prefix it is given, and in the run
  \<^verbatim>\<open>--modify existing.py\<close> (contents \<^verbatim>\<open>x = 1\<close>, description \<^verbatim>\<open>add y\<close>) the only
  message sent is the fresh-generation prefix followed by the description; the contents of
  the file are not in it.
\<close>

theorem modify_prefix_discarded:
  "call_chatgpt w p ct si s = call_chatgpt w p ct si' s \<and>
   map fst (calls (fst (main w_modify a_modify))) =
     [''Implement a python script in a single code block to perform this task: add y'']"
proof
  show "call_chatgpt w p ct si s = call_chatgpt w p ct si' s"
    by (simp add: call_chatgpt_def)
  show "map fst (calls (fst (main w_modify a_modify))) =
     [''Implement a python script in a single code block to perform this task: add y'']"
    by code_simp
qed

text \<open>
  C2. The repair prompt is built from \<^verbatim>\<open>args.prompt\<close>, the command-line argument as
  typed, not from the resolved prompt. In the run \<^verbatim>\<open>--prompt task.txt\<close>, where
  \<^verbatim>\<open>task.txt\<close> is a file that holds \<^verbatim>\<open>divide\<close>, the first request carries the
  contents of the file and the repair request names the path \<^verbatim>\<open>task.txt\<close> as the
  original prompt.
\<close>

theorem repair_prompt_names_the_path:
  "map fst (calls (fst (main w_file a_file))) =
     [''Implement a python script in a single code block to perform this task: divide'',
      ''Implement a python script in a single code block to perform this task: ''
        @ ''The original prompt was:\<newline>\<newline>task.txt\<newline>\<newline>Here is the code:\<newline>\<newline>print(1)''
        @ ''\<newline>\<newline>It produced the following error:\<newline>\<newline>division by zero''
        @ ''\<newline>\<newline>Please help me fix it.'']"
  by code_simp

text \<open>
  C3. A reply without the opening tag should make the extraction fail. The code adds the
  length of the tag to the \<^verbatim>\<open>-1\<close> that \<^verbatim>\<open>find\<close> returns and slices from there: for
  the reply \<^verbatim>\<open>no code here at all\<close> and the code type \<^verbatim>\<open>python\<close> it returns the
  characters 9 to 17 of the reply.
\<close>

theorem extract_code_absent_tag:
  "extract_code ''no code here at all'' ''python'' = ''ere at al''"
  by code_simp

subsection \<open>The repair loop\<close>

text \<open>
  C4. Stagnation, for the code type \<^verbatim>\<open>python\<close>, when every write succeeds: if two
  executions in a row fail with the same error text, they are the last two executions of
  the run and the loop ends as stagnant. Every execution but the last was followed by one
  request to the model, so none follows the second of the two; the files written are
  \<^verbatim>\<open>initial\<close>, one per repaired iteration (none for the stagnant iteration) and
  \<^verbatim>\<open>final\<close>, which holds the code of the last execution.
\<close>

theorem stagnation_stops_the_loop:
  assumes "saves_succeed w" and "main w a = (s, ex)" and "code_type a = ''python''"
      and "execs s = xs @ [(c1, Failure e), (c2, Failure e)] @ ys"
  shows "ys = [] \<and> ex = Finished Stagnant \<and> length (calls s) = length xs + 2 \<and>
         map fst (writes s) =
           ''./scripts/script_initial.py''
           # map (\<lambda>i. ''./scripts/script_iteration_'' @ str_int i @ ''.py'') [1..int (length xs) + 1]
           @ [''./scripts/script_final.py''] \<and>
         last (writes s) = (''./scripts/script_final.py'', c2)"
proof -
  from assms(4) have "execs s \<noteq> []" by simp
  with assms(1,2) obtain m c0 s1 code' s3 where run:
    "calls s1 = [(m, c0)]" "execs s1 = []"
    "writes s1 = [(artifact_path ''initial'' (code_type a), c0)]"
    "repair_loop w a [1..iterations a] c0 None s1 = (code', s3, ex)"
    "execs s = execs s3" "calls s = calls s3"
    "writes s = writes s3 @
       (case ex of Finished h \<Rightarrow> [(artifact_path ''final'' (code_type a), code')] | _ \<Rightarrow> [])"
    by (rule main_reaches_loop)
  from loop_effects[OF assms(1,3) run(4)] obtain nc ne where eff:
    "calls s3 = calls s1 @ nc" "execs s3 = execs s1 @ ne"
    "length nc \<le> length [1..iterations a]" "code' = last (c0 # map snd nc)"
    "map fst ne = take (length ne) (c0 # map snd nc)"
    "length ne = (if ex = Finished Exhausted then length nc else Suc (length nc))"
    "writes s3 = writes s1 @ iteration_writes ''python'' [1..iterations a] (map snd nc)
       @ (if ex = Finished Succeeded then [(artifact_path ''debugged'' ''python'', code')] else [])"
    by blast
  from eff(2) run(2,5) assms(4) have ne: "ne = xs @ [(c1, Failure e), (c2, Failure e)] @ ys"
    by simp
  then have "prev_result None @ map snd ne = map snd xs @ [Failure e, Failure e] @ map snd ys"
    by (simp add: prev_result_def)
  from loop_stagnation[OF assms(1,3) run(4) eff(2) this]
  have ys: "ys = []" and ex: "ex = Finished Stagnant" by simp_all
  from eff(6) ex ne ys have len: "length nc = Suc (length xs)" by simp
  from eff(5) ne ys len have "map fst xs @ [c1, c2] = c0 # map snd nc" by simp
  then have "last (c0 # map snd nc) = c2"
    by (metis last_appendR last.simps list.distinct(1))
  with eff(4) have code': "code' = c2" by simp
  from eff(3) len have "int (Suc (length xs)) \<le> iterations a" by simp
  then have tk: "take (length (map snd nc)) [1..iterations a] = [1..int (length xs) + 1]"
    using len by (simp add: take_upto add.commute)
  from eff(3) have "length (map snd nc) \<le> length [1..iterations a]" by simp
  from iteration_paths[OF this] tk
  have paths: "map fst (iteration_writes ''python'' [1..iterations a] (map snd nc)) =
      map (\<lambda>i. ''./scripts/script_iteration_'' @ str_int i @ ''.py'') [1..int (length xs) + 1]"
    by simp
  have w: "writes s = (artifact_path ''initial'' ''python'', c0)
             # iteration_writes ''python'' [1..iterations a] (map snd nc)
             @ [(artifact_path ''final'' ''python'', c2)]"
    using run(7,3) eff(7) ex code' assms(3) by simp
  have "map fst (writes s) = ''./scripts/script_initial.py''
           # map (\<lambda>i. ''./scripts/script_iteration_'' @ str_int i @ ''.py'') [1..int (length xs) + 1]
           @ [''./scripts/script_final.py'']"
    unfolding w using paths by (simp add: artifact_path_def)
  moreover have "last (writes s) = (''./scripts/script_final.py'', c2)"
    unfolding w by (simp add: artifact_path_def)
  moreover have "length (calls s) = length xs + 2"
    using run(6,1) eff(1) len by simp
  ultimately show ?thesis using ys ex by simp
qed

text \<open>The run in which every execution raises \<^verbatim>\<open>boom\<close>.\<close>

theorem stagnation_witness:
  "saves_succeed w_same \<and> snd (main w_same a_ok) = Finished Stagnant \<and>
   length (calls (fst (main w_same a_ok))) = 2 \<and>
   map fst (writes (fst (main w_same a_ok))) =
     [''./scripts/script_initial.py'', ''./scripts/script_iteration_1.py'',
      ''./scripts/script_final.py''] \<and>
   last (writes (fst (main w_same a_ok))) = (''./scripts/script_final.py'', ''print(1)'')"
proof -
  have h: "saves_succeed w_same" by (simp add: saves_succeed_def w_same_def)
  have r: "main w_same a_ok = (fst (main w_same a_ok), snd (main w_same a_ok))" by simp
  have t: "code_type a_ok = ''python''" by (simp add: a_ok_def)
  have e: "execs (fst (main w_same a_ok)) =
      [] @ [(''print(1)'', Failure ''boom''), (''print(1)'', Failure ''boom'')] @ []"
    by code_simp
  have i: "str_int 1 = ''1''" by code_simp
  from stagnation_stops_the_loop[OF h r t e] h i show ?thesis by (simp add: upto_rec1)
qed

text \<open>
  C6, as the code has it. For the code type \<^verbatim>\<open>python\<close>, when every write succeeds: if the
  first execution succeeds, it is the only execution, no repair is requested, the loop
  ends at its first iteration, and three files are written, \<^verbatim>\<open>initial\<close>,
  \<^verbatim>\<open>debugged\<close> and \<^verbatim>\<open>final\<close>, all with the code first generated. The claim counts two
  files: it leaves out \<^verbatim>\<open>final\<close>, which is written after the loop however it ends.
\<close>

theorem first_try_success:
  assumes "saves_succeed w" and "main w a = (s, ex)" and "code_type a = ''python''"
      and "execs s \<noteq> []" and "snd (hd (execs s)) = Success"
  shows "ex = Finished Succeeded \<and> length (execs s) = 1 \<and> length (calls s) = 1 \<and>
         writes s = [(''./scripts/script_initial.py'', snd (hd (calls s))),
                     (''./scripts/script_debugged.py'', snd (hd (calls s))),
                     (''./scripts/script_final.py'', snd (hd (calls s)))]"
proof -
  from assms(1,2,4) obtain m c0 s1 code' s3 where run:
    "calls s1 = [(m, c0)]" "execs s1 = []"
    "writes s1 = [(artifact_path ''initial'' (code_type a), c0)]"
    "repair_loop w a [1..iterations a] c0 None s1 = (code', s3, ex)"
    "execs s = execs s3" "calls s = calls s3"
    "writes s = writes s3 @
       (case ex of Finished h \<Rightarrow> [(artifact_path ''final'' (code_type a), code')] | _ \<Rightarrow> [])"
    by (rule main_reaches_loop)
  have "execs s3 = execs s1 @ execs s" using run(2,5) by simp
  from loop_first_success[OF assms(1,3) run(4) this assms(4,5)]
  have "ex = Finished Succeeded" "code' = c0" "execs s = [(c0, Success)]" "calls s3 = calls s1"
    "writes s3 = writes s1 @ [(artifact_path ''debugged'' ''python'', c0)]"
    by simp_all
  with run(1,3,6,7) assms(3) show ?thesis by (simp add: artifact_path_def)
qed

text \<open>The run in which the generated code runs at once.\<close>

theorem first_try_success_witness:
  "saves_succeed w_ok \<and> snd (main w_ok a_ok) = Finished Succeeded \<and>
   length (execs (fst (main w_ok a_ok))) = 1 \<and>
   length (calls (fst (main w_ok a_ok))) = 1 \<and>
   writes (fst (main w_ok a_ok)) =
     [(''./scripts/script_initial.py'', ''print(1)''),
      (''./scripts/script_debugged.py'', ''print(1)''),
      (''./scripts/script_final.py'', ''print(1)'')]"
proof -
  have k: "saves_succeed w_ok" by (simp add: saves_succeed_def w_ok_def)
  have r: "main w_ok a_ok = (fst (main w_ok a_ok), snd (main w_ok a_ok))" by simp
  have t: "code_type a_ok = ''python''" by (simp add: a_ok_def)
  have e: "execs (fst (main w_ok a_ok)) \<noteq> []" by code_simp
  have h: "snd (hd (execs (fst (main w_ok a_ok)))) = Success" by code_simp
  have c: "snd (hd (calls (fst (main w_ok a_ok)))) = ''print(1)''" by code_simp
  from first_try_success[OF k r t e h] k c show ?thesis by simp
qed

text \<open>The same run against the claim: its first execution succeeds and it writes three
  files, not two.\<close>

theorem first_try_success_counterexample:
  "code_type a_ok = ''python'' \<and> map snd (execs (fst (main w_ok a_ok))) = [Success] \<and>
   map fst (writes (fst (main w_ok a_ok))) =
     [''./scripts/script_initial.py'', ''./scripts/script_debugged.py'',
      ''./scripts/script_final.py''] \<and>
   length (writes (fst (main w_ok a_ok))) \<noteq> 2"
  by code_simp

text \<open>
  C7. A run that leaves the loop and ends normally, for any code type and however the loop
  ended, has written the file \<^verbatim>\<open>./scripts/script_final.<ext>\<close> last, and the file holds
  the last code that the model produced.
\<close>

theorem final_artifact_holds_last_code:
  assumes "main w a = (s, Finished h)"
  shows "calls s \<noteq> [] \<and> writes s \<noteq> [] \<and>
         last (writes s) =
           (''./scripts/script_final.'' @ (if code_type a = ''python'' then ''py'' else code_type a),
            snd (last (calls s))) \<and>
         fs s (''./scripts/script_final.'' @ (if code_type a = ''python'' then ''py'' else code_type a))
           = Some (snd (last (calls s)))"
proof -
  from assms obtain m c0 s1 code' s3 where run:
    "calls s1 = [(m, c0)]"
    "repair_loop w a [1..iterations a] c0 None s1 = (code', s3, Finished h)"
    "s = written code' (code_type a) ''final'' s3"
    by (rule main_finished)
  from loop_code[OF run(2)] obtain nc where
    nc: "calls s3 = calls s1 @ nc" "code' = last (c0 # map snd nc)" by blast
  from nc(1) run(1,3) have calls: "calls s = (m, c0) # nc" by simp
  then have "snd (last (calls s)) = last (c0 # map snd nc)"
    by (simp only: snd_last_Cons snd_conv)
  with nc(2) have code': "code' = snd (last (calls s))" by simp
  from run(3) have "fs s (artifact_path ''final'' (code_type a)) = Some code'"
    "writes s = writes s3 @ [(artifact_path ''final'' (code_type a), code')]"
    by simp_all
  with calls code' show ?thesis by (simp add: artifact_path_def)
qed

text \<open>A run for the code type \<^verbatim>\<open>html\<close>, which leaves the loop at its first iteration.\<close>

theorem final_artifact_witness:
  "snd (main w_html a_html) = Finished Unsupported \<and>
   last (writes (fst (main w_html a_html))) = (''./scripts/script_final.html'', ''<p>hi</p>'') \<and>
   fs (fst (main w_html a_html)) ''./scripts/script_final.html'' = Some ''<p>hi</p>''"
proof -
  have x: "snd (main w_html a_html) = Finished Unsupported" by code_simp
  have r: "main w_html a_html = (fst (main w_html a_html), Finished Unsupported)"
    by (rule prod_eqI) (simp_all add: x)
  have t: "code_type a_html = ''html''" by (simp add: a_html_def)
  have c: "snd (last (calls (fst (main w_html a_html)))) = ''<p>hi</p>''" by code_simp
  from final_artifact_holds_last_code[OF r] t c x show ?thesis by simp
qed

text \<open>
  C8. Exhaustion, for the code type \<^verbatim>\<open>python\<close>, when every write succeeds: if the run
  leaves the loop, no execution succeeds and no two executions in a row fail with the same
  error text, then the loop has used all its iterations, one execution and one repair
  request in each (so the requests are the first generation and \<^verbatim>\<open>iterations\<close>
  repairs), and \<^verbatim>\<open>final\<close> holds the last code that the model produced.
\<close>

theorem exhaustion_uses_every_iteration:
  assumes "saves_succeed w" and "main w a = (s, Finished h)" and "code_type a = ''python''"
      and "\<forall>r\<in>set (execs s). snd r \<noteq> Success"
      and "distinct_adj (map snd (execs s))"
  shows "h = Exhausted \<and> length (execs s) = nat (iterations a) \<and>
         length (calls s) = Suc (nat (iterations a)) \<and>
         last (writes s) = (''./scripts/script_final.py'', snd (last (calls s)))"
proof -
  from assms(2) obtain m c0 s1 code' s3 where run:
    "calls s1 = [(m, c0)]" "execs s1 = []"
    "repair_loop w a [1..iterations a] c0 None s1 = (code', s3, Finished h)"
    "s = written code' (code_type a) ''final'' s3"
    by (rule main_finished)
  from loop_effects[OF assms(1,3) run(3)] obtain nc ne where eff:
    "calls s3 = calls s1 @ nc" "execs s3 = execs s1 @ ne"
    "code' = last (c0 # map snd nc)"
    "length ne = (if Finished h = Finished Exhausted then length nc else Suc (length nc))"
    "Finished h = Finished Exhausted \<longrightarrow> length nc = length [1..iterations a]"
    by blast
  from eff(2) run(2,4) have ne: "ne = execs s" by simp
  have "distinct_adj (prev_result None @ map snd ne)" "Success \<notin> snd ` set ne"
    using assms(4,5) ne by (auto simp: prev_result_def)
  from loop_exhausted[OF assms(1,3) run(3) eff(2) this] have h: "h = Exhausted" .
  from eff(1) run(1,4) have calls: "calls s = (m, c0) # nc" by simp
  then have "snd (last (calls s)) = last (c0 # map snd nc)"
    by (simp only: snd_last_Cons snd_conv)
  with eff(3) have code': "code' = snd (last (calls s))" by simp
  from eff(4,5) h ne have "length nc = nat (iterations a)" "length (execs s) = nat (iterations a)"
    by simp_all
  moreover from run(4) have "writes s = writes s3 @ [(artifact_path ''final'' (code_type a), code')]"
    by simp
  ultimately show ?thesis using h calls code' assms(3) by (simp add: artifact_path_def)
qed

text \<open>The run of two iterations in which every execution raises a new error.\<close>

theorem exhaustion_witness:
  "saves_succeed w_fresh \<and> snd (main w_fresh a_two) = Finished Exhausted \<and>
   length (execs (fst (main w_fresh a_two))) = 2 \<and>
   length (calls (fst (main w_fresh a_two))) = 3 \<and>
   last (writes (fst (main w_fresh a_two))) = (''./scripts/script_final.py'', ''print(1)'')"
proof -
  have k: "saves_succeed w_fresh" by (simp add: saves_succeed_def w_fresh_def)
  have x: "snd (main w_fresh a_two) = Finished Exhausted" by code_simp
  have r: "main w_fresh a_two = (fst (main w_fresh a_two), Finished Exhausted)"
    by (rule prod_eqI) (simp_all add: x)
  have t: "code_type a_two = ''python''" "iterations a_two = 2" by (simp_all add: a_two_def)
  have e: "execs (fst (main w_fresh a_two)) =
             [(''print(1)'', Failure ''error 0''), (''print(1)'', Failure ''error 1'')]"
    by code_simp
  have c: "snd (last (calls (fst (main w_fresh a_two)))) = ''print(1)''" by code_simp
  have f: "\<forall>r\<in>set (execs (fst (main w_fresh a_two))). snd r \<noteq> Success" by (simp add: e)
  have d: "distinct_adj (map snd (execs (fst (main w_fresh a_two))))" by (simp add: e)
  from exhaustion_uses_every_iteration[OF k r t(1) f d] k t(2) c x show ?thesis by simp
qed

subsection \<open>Code types that are not executed\<close>

text \<open>
  C5, as the code has it. A run for a code type other than \<^verbatim>\<open>python\<close> that gets past
  its start-up and is not ended by an exception makes one request to the model and
  executes nothing. For \<^verbatim>\<open>latex\<close> it writes one file, \<^verbatim>\<open>initial\<close>, and returns. For
  any other type it enters the loop, leaves it at the first iteration and writes a second
  file, \<^verbatim>\<open>final\<close>, with the same code. The claim has one file for every such type.
\<close>

theorem other_types_never_execute:
  assumes "main w a = (s, ex)" and "code_type a \<noteq> ''python''"
      and "ex \<noteq> Usage" and "\<forall>e. ex \<noteq> Aborted e"
  shows "length (calls s) = 1 \<and> execs s = [] \<and>
         (if code_type a = ''latex''
          then ex = InitialOnly \<and>
               writes s = [(''./scripts/script_initial.latex'', snd (hd (calls s)))]
          else ex = Finished (if iterations a < 1 then Exhausted else Unsupported) \<and>
               writes s = [(''./scripts/script_initial.'' @ code_type a, snd (hd (calls s))),
                           (''./scripts/script_final.'' @ code_type a, snd (hd (calls s)))])"
proof -
  let ?s0 = "\<lparr>fs = files w, scripts_dir = scripts_exists w, saves = 0, writes = [],
              calls = [], execs = []\<rparr>"
  from assms(1,3,4) obtain c0 s0' where ic: "initial_code w a ?s0 = Inr (c0, s0')"
    and key: "files w ''api_key.txt'' \<noteq> None"
    and args: "truthy (prompt a) \<or> truthy (modify a)"
    by (auto simp: main_def Let_def split: if_splits option.splits sum.splits)
  from initial_code_Inr[OF ic] obtain m where s0': "s0' = ?s0\<lparr>calls := [(m, c0)]\<rparr>" by auto
  obtain q s1 where sv: "save_code_to_file w c0 (code_type a) 0 ''initial'' s0' = (q, s1)"
    by (cases "save_code_to_file w c0 (code_type a) 0 ''initial'' s0'") auto
  from assms(1,4) ic key args sv have q: "q = None"
    by (auto simp: main_def Let_def split: if_splits option.splits)
  from save_None[OF sv[unfolded q]] have s1: "s1 = written c0 (code_type a) ''initial'' s0'" .
  show ?thesis
  proof (cases "code_type a = ''latex''")
    case True
    with assms(1) ic key args sv q have "s = s1 \<and> ex = InitialOnly"
      by (auto simp: main_def Let_def)
    with True s1 s0' show ?thesis by (simp add: artifact_path_def)
  next
    case False
    let ?h = "if iterations a < 1 then Exhausted else Unsupported"
    have loop: "repair_loop w a [1..iterations a] c0 None s1 = (c0, s1, Finished ?h)"
      using assms(2) by (simp add: loop_other_type)
    obtain q' s4 where sv': "save_code_to_file w c0 (code_type a) (iterations a) ''final'' s1
                               = (q', s4)"
      by (cases "save_code_to_file w c0 (code_type a) (iterations a) ''final'' s1") auto
    from assms(1,4) False ic key args sv q loop sv'
    have "q' = None \<and> s = s4 \<and> ex = Finished ?h"
      by (auto simp: main_def Let_def split: option.splits)
    then have q': "q' = None" and s: "s = s4" and ex: "ex = Finished ?h" by simp_all
    from save_None[OF sv'[unfolded q']] s have "s = written c0 (code_type a) ''final'' s1" by simp
    with s1 s0' ex False assms(2) show ?thesis by (simp add: artifact_path_def)
  qed
qed

text \<open>A run for the code type \<^verbatim>\<open>html\<close>.\<close>

theorem other_types_witness:
  "length (calls (fst (main w_html a_html))) = 1 \<and> execs (fst (main w_html a_html)) = [] \<and>
   snd (main w_html a_html) = Finished Unsupported \<and>
   writes (fst (main w_html a_html)) =
     [(''./scripts/script_initial.html'', ''<p>hi</p>''),
      (''./scripts/script_final.html'', ''<p>hi</p>'')]"
proof -
  have r: "main w_html a_html = (fst (main w_html a_html), snd (main w_html a_html))" by simp
  have t: "code_type a_html = ''html''" "iterations a_html = 5" by (simp_all add: a_html_def)
  have x: "snd (main w_html a_html) = Finished Unsupported" by code_simp
  have c: "snd (hd (calls (fst (main w_html a_html)))) = ''<p>hi</p>''" by code_simp
  have "code_type a_html \<noteq> ''python''" "snd (main w_html a_html) \<noteq> Usage"
    "\<forall>e. snd (main w_html a_html) \<noteq> Aborted e"
    by (simp_all add: t x)
  from other_types_never_execute[OF r this] t c show ?thesis by simp
qed

text \<open>The same run against the claim: it writes two files, not one.\<close>

theorem html_run_counterexample:
  "code_type a_html \<noteq> ''python'' \<and>
   writes (fst (main w_html a_html)) =
     [(''./scripts/script_initial.html'', ''<p>hi</p>''),
      (''./scripts/script_final.html'', ''<p>hi</p>'')] \<and>
   length (writes (fst (main w_html a_html))) \<noteq> 1"
  by code_simp

subsection \<open>Extraction of a fenced block\<close>

text \<open>
  C9. Extraction round trip. A reply that holds the block
  \<^verbatim>\<open>```python\<close>, newline, \<^verbatim>\<open>print(1)\<close>, newline, \<^verbatim>\<open>```\<close> after a text in which the
  opening tag does not occur, and followed by any text, yields exactly \<^verbatim>\<open>print(1)\<close>. In
  general, for any code type: when no occurrence of the opening tag starts before the end
  of \<open>pre\<close>, so that the tag after \<open>pre\<close> is its first occurrence, and no occurrence of the
  closing fence starts inside \<open>body\<close>, so that the fence after \<open>body\<close> is the next one
  after the tag, the extraction returns \<open>body\<close>, the text strictly between the two.
\<close>

theorem extract_code_round_trip:
  "(\<not> sublist ''```python\<newline>'' pre \<longrightarrow>
      extract_code (pre @ ''```python\<newline>print(1)\<newline>```'' @ post) ''python'' = ''print(1)'') \<and>
   ((\<forall>j<length pre'.
        take (length (''```'' @ ct @ ''\<newline>''))
          (drop j (pre' @ (''```'' @ ct @ ''\<newline>'') @ body @ ''\<newline>```'' @ post'))
        \<noteq> ''```'' @ ct @ ''\<newline>'') \<and>
    (\<forall>j<length body. take (length ''\<newline>```'') (drop j (body @ ''\<newline>```'' @ post')) \<noteq> ''\<newline>```'') \<longrightarrow>
      extract_code (pre' @ (''```'' @ ct @ ''\<newline>'') @ body @ ''\<newline>```'' @ post') ct = body)"
proof (intro conjI impI)
  assume "\<not> sublist ''```python\<newline>'' pre"
  moreover have "\<not> sublist ''\<newline>```'' ''print(1)''" by code_simp
  moreover have "CHR ''\<newline>'' \<notin> set ''python''" by simp
  ultimately show
    "extract_code (pre @ ''```python\<newline>print(1)\<newline>```'' @ post) ''python'' = ''print(1)''"
    using extract_code_block[of "''python''" pre "''print(1)''" post] by simp
next
  assume h: "(\<forall>j<length pre'.
        take (length (''```'' @ ct @ ''\<newline>''))
          (drop j (pre' @ (''```'' @ ct @ ''\<newline>'') @ body @ ''\<newline>```'' @ post'))
        \<noteq> ''```'' @ ct @ ''\<newline>'') \<and>
    (\<forall>j<length body. take (length ''\<newline>```'') (drop j (body @ ''\<newline>```'' @ post')) \<noteq> ''\<newline>```'')"
  show "extract_code (pre' @ (''```'' @ ct @ ''\<newline>'') @ body @ ''\<newline>```'' @ post') ct = body"
    by (rule extract_code_first_block[OF h[THEN conjunct1] h[THEN conjunct2] refl refl])
qed

text \<open>The reply of the concrete runs, and a short reply with an \<^verbatim>\<open>html\<close> block.\<close>

theorem extract_code_round_trip_witness:
  "extract_code ''Here you go:\<newline>```python\<newline>print(1)\<newline>```\<newline>Enjoy.'' ''python'' = ''print(1)'' \<and>
   extract_code ''x```html\<newline>hi\<newline>```'' ''html'' = ''hi''"
proof -
  have a: "\<not> sublist ''```python\<newline>'' ''Here you go:\<newline>''" by code_simp
  have b: "\<forall>j<length ''x''.
        take (length (''```'' @ ''html'' @ ''\<newline>''))
          (drop j (''x'' @ (''```'' @ ''html'' @ ''\<newline>'') @ ''hi'' @ ''\<newline>```'' @ []))
        \<noteq> ''```'' @ ''html'' @ ''\<newline>''"
    by simp
  have c: "\<forall>j<length ''hi''. take (length ''\<newline>```'') (drop j (''hi'' @ ''\<newline>```'' @ [])) \<noteq> ''\<newline>```''"
    by (auto simp: less_Suc_eq)
  from extract_code_round_trip[of "''Here you go:\<newline>''" "''\<newline>Enjoy.''" "''x''" "''html''" "''hi''" "[]"]
    a b c show ?thesis by simp
qed

end
